theory Spec2Isabelle
  imports Main "HOL-Library.Sublist"
begin

section \<open>Python strings\<close>

text \<open>
  A Python \<open>str\<close> is a sequence of Unicode code points and \<open>len\<close> counts code points, so a
  string is modelled as the list of its code points. The dictionary of the script contains
  letters outside ASCII, which are written by their code point.
\<close>

type_synonym pstr = "nat list"

definition ascii :: "string \<Rightarrow> pstr" where
  "ascii s = map of_char s"

text \<open>\<open>sub in text\<close> on strings: \<open>sub\<close> occurs in \<open>text\<close> as a contiguous substring.\<close>

fun str_in :: "'a list \<Rightarrow> 'a list \<Rightarrow> bool" where
  "str_in sub [] = (sub = [])"
| "str_in sub (c # cs) = (prefix sub (c # cs) \<or> str_in sub cs)"

text \<open>
  \<open>text.replace(old, new)\<close>: every occurrence of \<open>old\<close>, found from the left and not
  overlapping, is replaced by \<open>new\<close>. For an empty \<open>old\<close> Python inserts \<open>new\<close> before every
  character and at the end.
\<close>

function str_replace :: "'a list \<Rightarrow> 'a list \<Rightarrow> 'a list \<Rightarrow> 'a list" where
  "str_replace old new [] = (if old = [] then new else [])"
| "str_replace old new (c # cs) =
     (if old = [] then new @ c # str_replace old new cs
      else if prefix old (c # cs) then new @ str_replace old new (drop (length old) (c # cs))
      else c # str_replace old new cs)"
  by pat_completeness auto
termination
  by (relation "measure (\<lambda>(old, new, text). length text)") auto

text \<open>
  \<open>s.strip()\<close> removes leading and trailing whitespace; \<open>isspace\<close> lists the code points
  that Python's \<open>str.isspace\<close> accepts.
\<close>

definition isspace :: "nat \<Rightarrow> bool" where
  "isspace c \<longleftrightarrow>
     (9 \<le> c \<and> c \<le> 13) \<or> (28 \<le> c \<and> c \<le> 32) \<or> c = 133 \<or> c = 160 \<or> c = 5760 \<or>
     (8192 \<le> c \<and> c \<le> 8202) \<or> c = 8232 \<or> c = 8233 \<or> c = 8239 \<or> c = 8287 \<or> c = 12288"

definition strip :: "pstr \<Rightarrow> pstr" where
  "strip s = rev (dropWhile isspace (rev (dropWhile isspace s)))"

section \<open>The correction dictionary\<close>

text \<open>
  \<open>MANUAL_FIXES\<close>, in the insertion order in which Python iterates over a dictionary
  literal; the keys are pairwise distinct.
\<close>

definition MANUAL_FIXES :: "(pstr \<times> pstr) list" where
  "MANUAL_FIXES =
    [(ascii ''Gro?njan'', ascii ''Gro'' @ [382] @ ascii ''njan''),
     (ascii ''V?rsar'', ascii ''Vrsar''),
     (ascii ''Pore?'', ascii ''Pore'' @ [269]),
     (ascii ''Rovin?'', ascii ''Rovinj''),
     (ascii ''Motov?n'', ascii ''Motovun''),
     ([195, 168], [232]),
     ([195, 169], [233]),
     ([226, 8364, 8482], [8217]),
     ([195, 32], [224]),
     ([195, 185], [249]),
     ([195, 172], [236]),
     ([195, 178], [242]),
     (ascii ''Caf?'', ascii ''Caf'' @ [233]),
     (ascii ''Fa?ade'', ascii ''Fa'' @ [231] @ ascii ''ade''),
     (ascii ''Entr?e'', ascii ''Entr'' @ [233] @ ascii ''e''),
     (ascii ''Pi?a'', ascii ''Pi'' @ [241] @ ascii ''a'')]"

section \<open>JSON values and the Python operations applied to them\<close>

text \<open>
  The exceptions that the operations of the script can raise; all of them are subclasses
  of \<open>Exception\<close>.
\<close>

datatype exn = RequestException | JSONDecodeError | KeyError | IndexError | TypeError
  | AttributeError | UnicodeEncodeError

text \<open>
  What \<open>response.json()\<close> returns. A \<open>JDict\<close> holds the items of the parsed dictionary,
  whose keys are strings. Of a number the script can only observe whether it is zero, so
  numbers are integers here.
\<close>

datatype json = JNull | JBool bool | JNum int | JStr pstr | JList "json list"
  | JDict "(pstr \<times> json) list"

definition then_do :: "exn + 'a \<Rightarrow> ('a \<Rightarrow> exn + 'b) \<Rightarrow> exn + 'b" where
  "then_do m f = (case m of Inl e \<Rightarrow> Inl e | Inr x \<Rightarrow> f x)"

text \<open>Truth value of an object in a condition.\<close>

fun truthy :: "json \<Rightarrow> bool" where
  "truthy JNull = False"
| "truthy (JBool b) = b"
| "truthy (JNum n) = (n \<noteq> 0)"
| "truthy (JStr s) = (s \<noteq> [])"
| "truthy (JList xs) = (xs \<noteq> [])"
| "truthy (JDict kvs) = (kvs \<noteq> [])"

text \<open>\<open>key in x\<close> for a string \<open>key\<close>.\<close>

fun py_in :: "pstr \<Rightarrow> json \<Rightarrow> exn + bool" where
  "py_in k (JDict kvs) = Inr (k \<in> set (map fst kvs))"
| "py_in k (JList xs) = Inr (JStr k \<in> set xs)"
| "py_in k (JStr s) = Inr (str_in k s)"
| "py_in k JNull = Inl TypeError"
| "py_in k (JBool b) = Inl TypeError"
| "py_in k (JNum n) = Inl TypeError"

text \<open>\<open>x[key]\<close> for a string \<open>key\<close>.\<close>

fun getitem_str :: "json \<Rightarrow> pstr \<Rightarrow> exn + json" where
  "getitem_str (JDict kvs) k = (case map_of kvs k of None \<Rightarrow> Inl KeyError | Some v \<Rightarrow> Inr v)"
| "getitem_str JNull k = Inl TypeError"
| "getitem_str (JBool b) k = Inl TypeError"
| "getitem_str (JNum n) k = Inl TypeError"
| "getitem_str (JStr s) k = Inl TypeError"
| "getitem_str (JList xs) k = Inl TypeError"

text \<open>\<open>x[0]\<close>. A parsed dictionary has no integer key.\<close>

fun getitem_0 :: "json \<Rightarrow> exn + json" where
  "getitem_0 (JList []) = Inl IndexError"
| "getitem_0 (JList (x # xs)) = Inr x"
| "getitem_0 (JStr []) = Inl IndexError"
| "getitem_0 (JStr (c # cs)) = Inr (JStr [c])"
| "getitem_0 (JDict kvs) = Inl KeyError"
| "getitem_0 JNull = Inl TypeError"
| "getitem_0 (JBool b) = Inl TypeError"
| "getitem_0 (JNum n) = Inl TypeError"

text \<open>\<open>x.strip()\<close>: only a string has the method.\<close>

fun py_strip :: "json \<Rightarrow> exn + pstr" where
  "py_strip (JStr s) = Inr (strip s)"
| "py_strip JNull = Inl AttributeError"
| "py_strip (JBool b) = Inl AttributeError"
| "py_strip (JNum n) = Inl AttributeError"
| "py_strip (JList xs) = Inl AttributeError"
| "py_strip (JDict kvs) = Inl AttributeError"

section \<open>The outside world\<close>

text \<open>
  A call of \<open>requests\<close> either raises (no response was obtained) or returns a response
  with a status code and a body.
\<close>

datatype 'b response = ConnectionFailed | Response nat 'b

text \<open>
  A row of the store, as \<open>place.get\<close> reads it: a field that is absent or null is \<open>None\<close>.
  The store's table has text columns, so a title is a string or absent.
\<close>

record place =
  place_id :: int
  title :: "pstr option"
  description :: "pstr option"

datatype log = Starting | Scanning nat | FetchError | Querying pstr | GeminiError exn
  | Fix int "pstr option" "pstr option" | Saved | Failed | Completed nat nat

text \<open>
  The effects of the script, in the order in which they happen: a line printed, a \<open>GET\<close>
  with offset and limit, a \<open>POST\<close> to the oracle with the text put into the prompt, a
  \<open>PATCH\<close> of a row with the items of its payload, and a \<open>time.sleep\<close>.
\<close>

datatype event = Print log | Get nat nat | Post pstr | Patch int "(pstr \<times> pstr) list"
  | Sleep nat

text \<open>
  The two services answer as they like, and their answers may depend on everything that
  happened before: each is a function of a state \<open>'w\<close> of the world, which it updates.
  The body of a \<open>GET\<close> and of a \<open>POST\<close> is \<open>None\<close> when it is not JSON, where
  \<open>response.json()\<close> raises; the body of a \<open>GET\<close> with status 200 is otherwise a list of
  rows.
\<close>

record 'w env =
  http_get :: "'w \<Rightarrow> nat \<Rightarrow> nat \<Rightarrow> place list option response \<times> 'w"
  http_post :: "'w \<Rightarrow> pstr \<Rightarrow> json option response \<times> 'w"
  http_patch :: "'w \<Rightarrow> int \<Rightarrow> (pstr \<times> pstr) list \<Rightarrow> unit response \<times> 'w"

record 'w io =
  world :: 'w
  trace :: "event list"

definition emit :: "event \<Rightarrow> 'w io \<Rightarrow> 'w io" where
  "emit e io = io\<lparr>trace := trace io @ [e]\<rparr>"

text \<open>
  \<open>print\<close> encodes its line for the console and raises \<open>UnicodeEncodeError\<close>, writing
  nothing, when the line holds a code point that the encoding of the console does not have.
  The console is taken to be UTF-8, Python's default, which has every code point but the
  surrogates \<open>U+D800\<close> to \<open>U+DFFF\<close>. A string read from a JSON body can hold a surrogate
  (JSON has an escape for them), so the two lines that show a title or the text sent to the oracle
  can raise. The other lines cannot: their fixed parts and numbers are ASCII, the message
  of an exception is ASCII, and \<open>response.text\<close> is decoded from bytes, which gives no
  surrogate. \<open>str_of\<close> is what an f-string shows for a value that may be \<open>None\<close>.
\<close>

definition encodable :: "pstr \<Rightarrow> bool" where
  "encodable t = list_all (\<lambda>c. c < 55296 \<or> 57343 < c) t"

definition str_of :: "pstr option \<Rightarrow> pstr" where
  "str_of v = (case v of None \<Rightarrow> ascii ''None'' | Some t \<Rightarrow> t)"

fun printed_texts :: "log \<Rightarrow> pstr list" where
  "printed_texts (Querying t) = [t]"
| "printed_texts (Fix pid old new) = [str_of old, str_of new]"
| "printed_texts Starting = []"
| "printed_texts (Scanning offs) = []"
| "printed_texts FetchError = []"
| "printed_texts (GeminiError e) = []"
| "printed_texts Saved = []"
| "printed_texts Failed = []"
| "printed_texts (Completed scanned fixed) = []"

definition py_print :: "log \<Rightarrow> 'w io \<Rightarrow> exn + 'w io" where
  "py_print l io =
     (if list_all encodable (printed_texts l) then Inr (emit (Print l) io)
      else Inl UnicodeEncodeError)"

section \<open>The oracle: \<open>ask_gemini_to_fix\<close>\<close>

text \<open>\<open>'candidates' in result and result['candidates']\<close>, as a condition.\<close>

definition has_candidates :: "json \<Rightarrow> exn + bool" where
  "has_candidates result =
     then_do (py_in (ascii ''candidates'') result) (\<lambda>present.
       if present then
         then_do (getitem_str result (ascii ''candidates'')) (\<lambda>cands. Inr (truthy cands))
       else Inr False)"

text \<open>\<open>result['candidates'][0]['content']['parts'][0]['text'].strip()\<close>\<close>

definition candidate_text :: "json \<Rightarrow> exn + pstr" where
  "candidate_text result =
     then_do (getitem_str result (ascii ''candidates'')) (\<lambda>cands.
     then_do (getitem_0 cands) (\<lambda>cand.
     then_do (getitem_str cand (ascii ''content'')) (\<lambda>content.
     then_do (getitem_str content (ascii ''parts'')) (\<lambda>parts.
     then_do (getitem_0 parts) (\<lambda>part.
     then_do (getitem_str part (ascii ''text'')) py_strip)))))"

text \<open>
  The body of the \<open>try\<close>, given the outcome of \<open>requests.post\<close>: an exception, a returned
  value, or \<open>None\<close> when control leaves the \<open>try\<close> without returning.
\<close>

definition gemini_try :: "pstr \<Rightarrow> json option response \<Rightarrow> exn + pstr option" where
  "gemini_try text resp =
     (case resp of
        ConnectionFailed \<Rightarrow> Inl RequestException
      | Response status_code body \<Rightarrow>
          if status_code = 200 then
            (case body of
               None \<Rightarrow> Inl JSONDecodeError
             | Some result \<Rightarrow>
                 then_do (has_candidates result) (\<lambda>ok.
                   if ok then
                     then_do (candidate_text result) (\<lambda>fixed.
                       if abs (int (length fixed) - int (length text)) > 5 then Inr (Some text)
                       else Inr (Some (str_replace [34] [] fixed)))
                   else Inr None))
          else Inr None)"

text \<open>
  The request is determined by \<open>text\<close>, which the prompt embeds. An exception of the
  \<open>try\<close> is printed and the function goes on to its last line, \<open>return text\<close>.
\<close>

definition ask_gemini_to_fix :: "'w env \<Rightarrow> pstr \<Rightarrow> 'w io \<Rightarrow> pstr \<times> 'w io" where
  "ask_gemini_to_fix env text io =
     (let (resp, w) = http_post env (world io) text;
          io1 = io\<lparr>world := w, trace := trace io @ [Post text]\<rparr>
      in case gemini_try text resp of
           Inl e \<Rightarrow> (text, emit (Print (GeminiError e)) io1)
         | Inr None \<Rightarrow> (text, io1)
         | Inr (Some fixed) \<Rightarrow> (fixed, io1))"

section \<open>The sanitizer: \<open>sanitize_text\<close>\<close>

text \<open>The loop over \<open>MANUAL_FIXES.items()\<close>.\<close>

fun manual_pass :: "(pstr \<times> pstr) list \<Rightarrow> pstr \<Rightarrow> pstr" where
  "manual_pass [] text = text"
| "manual_pass ((broken, fixed) # rest) text =
     manual_pass rest (if str_in broken text then str_replace broken fixed text else text)"

text \<open>
  \<open>None\<close> and the empty string are the values for which \<open>not text\<close> holds. The function
  catches nothing: when its \<open>print\<close> raises, that is its result, and neither the oracle
  nor \<open>time.sleep\<close> is reached.
\<close>

definition sanitize_text ::
  "'w env \<Rightarrow> pstr option \<Rightarrow> 'w io \<Rightarrow> (exn + pstr option) \<times> 'w io" where
  "sanitize_text env text io =
     (case text of
        None \<Rightarrow> (Inr None, io)
      | Some t \<Rightarrow>
          if t = [] then (Inr (Some t), io)
          else
            let t1 = manual_pass MANUAL_FIXES t in
            if str_in [63] t1 \<or> str_in [195] t1 then
              (case py_print (Querying (take 30 t1)) io of
                 Inl e \<Rightarrow> (Inl e, io)
               | Inr io1 \<Rightarrow>
                   let (t2, io2) = ask_gemini_to_fix env t1 io1
                   in (Inr (Some t2), emit (Sleep 1) io2))
            else (Inr (Some t1), io))"

section \<open>The store: \<open>fetch_places\<close> and \<open>update_place\<close>\<close>

text \<open>
  Neither function catches anything: an exception of \<open>requests.get\<close>, \<open>requests.patch\<close> or
  \<open>response.json()\<close> is the result.
\<close>

definition fetch_places :: "'w env \<Rightarrow> nat \<Rightarrow> nat \<Rightarrow> 'w io \<Rightarrow> (exn + place list) \<times> 'w io" where
  "fetch_places env offset limit io =
     (let (resp, w) = http_get env (world io) offset limit;
          io1 = io\<lparr>world := w, trace := trace io @ [Get offset limit]\<rparr>
      in case resp of
           ConnectionFailed \<Rightarrow> (Inl RequestException, io1)
         | Response status_code body \<Rightarrow>
             if status_code \<noteq> 200 then (Inr [], emit (Print FetchError) io1)
             else (case body of
                     None \<Rightarrow> (Inl JSONDecodeError, io1)
                   | Some places \<Rightarrow> (Inr places, io1)))"

text \<open>\<open>if title:\<close> holds for a string that is present and not empty.\<close>

definition field_items :: "string \<Rightarrow> pstr option \<Rightarrow> (pstr \<times> pstr) list" where
  "field_items name v =
     (case v of None \<Rightarrow> [] | Some s \<Rightarrow> if s = [] then [] else [(ascii name, s)])"

definition update_place ::
  "'w env \<Rightarrow> int \<Rightarrow> pstr option \<Rightarrow> pstr option \<Rightarrow> 'w io \<Rightarrow> (exn + bool) \<times> 'w io" where
  "update_place env pid new_title new_description io =
     (let payload = field_items ''title'' new_title @ field_items ''description'' new_description
      in if payload = [] then (Inr False, io)
         else
           let (resp, w) = http_patch env (world io) pid payload;
               io1 = io\<lparr>world := w, trace := trace io @ [Patch pid payload]\<rparr>
           in case resp of
                ConnectionFailed \<Rightarrow> (Inl RequestException, io1)
              | Response status_code body \<Rightarrow> (Inr (status_code = 200 \<or> status_code = 204), io1))"

section \<open>The orchestrator: \<open>main\<close>\<close>

record 'w state =
  st_io :: "'w io"
  offset :: nat
  total_fixed :: nat
  total_scanned :: nat

text \<open>
  The body of \<open>for place in places\<close> for one row. Nothing is caught here, so the result is
  the exception that ends the program, if one is raised: by \<open>sanitize_text\<close>, by the
  \<open>print\<close> of the change, or by \<open>update_place\<close>.
\<close>

definition process_place :: "'w env \<Rightarrow> place \<Rightarrow> 'w state \<Rightarrow> exn option \<times> 'w state" where
  "process_place env p st =
     (let st1 = st\<lparr>total_scanned := total_scanned st + 1\<rparr>;
          (s, io1) = sanitize_text env (title p) (st_io st1)
      in case s of
           Inl e \<Rightarrow> (Some e, st1\<lparr>st_io := io1\<rparr>)
         | Inr new_title \<Rightarrow>
             if title p \<noteq> None \<and> title p \<noteq> Some [] \<and> title p \<noteq> new_title then
               (case py_print (Fix (place_id p) (title p) new_title) io1 of
                  Inl e \<Rightarrow> (Some e, st1\<lparr>st_io := io1\<rparr>)
                | Inr io2 \<Rightarrow>
                    let (r, io3) = update_place env (place_id p) new_title None io2
                    in case r of
                         Inl e \<Rightarrow> (Some e, st1\<lparr>st_io := io3\<rparr>)
                       | Inr saved \<Rightarrow>
                           if saved then
                             (None, st1\<lparr>st_io := emit (Print Saved) io3,
                                         total_fixed := total_fixed st1 + 1\<rparr>)
                           else (None, st1\<lparr>st_io := emit (Print Failed) io3\<rparr>))
             else (None, st1\<lparr>st_io := io1\<rparr>))"

fun process_places :: "'w env \<Rightarrow> place list \<Rightarrow> 'w state \<Rightarrow> exn option \<times> 'w state" where
  "process_places env [] st = (None, st)"
| "process_places env (p # ps) st =
     (case process_place env p st of
        (Some e, st1) \<Rightarrow> (Some e, st1)
      | (None, st1) \<Rightarrow> process_places env ps st1)"

text \<open>
  One pass through the body of \<open>while True\<close>: it ends the loop (\<open>break\<close>, or an
  exception that nothing catches) or goes on to the next pass.
\<close>

datatype outcome = Finished | Crashed exn | OutOfFuel

definition loop_body :: "'w env \<Rightarrow> nat \<Rightarrow> 'w state \<Rightarrow> outcome option \<times> 'w state" where
  "loop_body env batch st =
     (let io1 = emit (Print (Scanning (offset st))) (st_io st);
          (r, io2) = fetch_places env (offset st) batch io1;
          st1 = st\<lparr>st_io := io2\<rparr>
      in case r of
           Inl e \<Rightarrow> (Some (Crashed e), st1)
         | Inr places \<Rightarrow>
             if places = [] then (Some Finished, st1)
             else
               (case process_places env places st1 of
                  (Some e, st2) \<Rightarrow> (Some (Crashed e), st2)
                | (None, st2) \<Rightarrow>
                    if length places < batch then (Some Finished, st2)
                    else (None, st2\<lparr>offset := offset st2 + batch\<rparr>)))"

text \<open>
  The loop may run forever (a store that always returns full pages), so it takes fuel,
  one unit for every pass. The result says how the loop ended and gives the state it ended
  in; without fuel that is the state at the head of the loop.
\<close>

fun main_loop :: "'w env \<Rightarrow> nat \<Rightarrow> nat \<Rightarrow> 'w state \<Rightarrow> outcome \<times> 'w state" where
  "main_loop env batch 0 st = (OutOfFuel, st)"
| "main_loop env batch (Suc fuel) st =
     (case loop_body env batch st of
        (Some out, st1) \<Rightarrow> (out, st1)
      | (None, st1) \<Rightarrow> main_loop env batch fuel st1)"

definition initial_state :: "'w \<Rightarrow> 'w state" where
  "initial_state w =
     \<lparr>st_io = \<lparr>world = w, trace = [Print Starting]\<rparr>, offset = 0, total_fixed = 0,
      total_scanned = 0\<rparr>"

definition batch_size :: nat where
  "batch_size = 1000"

definition main :: "'w env \<Rightarrow> nat \<Rightarrow> 'w \<Rightarrow> outcome \<times> 'w state" where
  "main env fuel w =
     (case main_loop env batch_size fuel (initial_state w) of
        (Finished, st) \<Rightarrow>
          (Finished,
           st\<lparr>st_io := emit (Print (Completed (total_scanned st) (total_fixed st))) (st_io st)\<rparr>)
      | (Crashed e, st) \<Rightarrow> (Crashed e, st)
      | (OutOfFuel, st) \<Rightarrow> (OutOfFuel, st))"

section \<open>Notions used to state the properties\<close>

text \<open>The dictionary keys that occur in a text, in dictionary order.\<close>

definition matching_keys :: "pstr \<Rightarrow> pstr list" where
  "matching_keys t = filter (\<lambda>k. str_in k t) (map fst MANUAL_FIXES)"



text \<open>The effects in a trace other than printed lines: the requests and the delays.\<close>

fun is_print :: "event \<Rightarrow> bool" where
  "is_print (Print l) = True"
| "is_print (Get offs lim) = False"
| "is_print (Post t) = False"
| "is_print (Patch pid payload) = False"
| "is_print (Sleep n) = False"

definition effects :: "event list \<Rightarrow> event list" where
  "effects tr = filter (\<lambda>e. \<not> is_print e) tr"

text \<open>
  Processing a row from a state with the given effects so far fixes its title: the title
  is not empty, sanitizing returns and changes it, the change is printed, and the write of
  the new title succeeds.
\<close>

definition title_fixed :: "'w env \<Rightarrow> place \<Rightarrow> 'w io \<Rightarrow> bool" where
  "title_fixed env p io =
     (case sanitize_text env (title p) io of
        (Inl e, io1) \<Rightarrow> False
      | (Inr new_title, io1) \<Rightarrow>
          title p \<noteq> None \<and> title p \<noteq> Some [] \<and> title p \<noteq> new_title \<and>
          (case py_print (Fix (place_id p) (title p) new_title) io1 of
             Inl e \<Rightarrow> False
           | Inr io2 \<Rightarrow> fst (update_place env (place_id p) new_title None io2) = Inr True))"

text \<open>A \<open>PATCH\<close> that carries at least one field, and no empty field.\<close>

fun patch_nonempty :: "event \<Rightarrow> bool" where
  "patch_nonempty (Patch pid payload) = (payload \<noteq> [] \<and> list_all (\<lambda>kv. snd kv \<noteq> []) payload)"
| "patch_nonempty (Print l) = True"
| "patch_nonempty (Get offs lim) = True"
| "patch_nonempty (Post t) = True"
| "patch_nonempty (Sleep n) = True"

text \<open>
  A check on a dictionary: every entry has a key and a value that are not empty, and
  every later key contains a marker (\<open>?\<close>, code point 63, or code point 195) or shares
  no character with the value.
\<close>

fun later_keys_ok :: "(pstr \<times> pstr) list \<Rightarrow> bool" where
  "later_keys_ok [] = True"
| "later_keys_ok ((k, v) # rest) =
     (k \<noteq> [] \<and> v \<noteq> [] \<and>
      list_all (\<lambda>k'. 63 \<in> set k' \<or> 195 \<in> set k' \<or> set k' \<inter> set v = {}) (map fst rest) \<and>
      later_keys_ok rest)"

text \<open>
  Examples of the outside world: the answer of the oracle that carries one candidate with
  the given text, and a world whose state counts the fetches, with a store that serves the
  given pages one after the other (and empty pages from then on) and answers every
  \<open>PATCH\<close> with the same status, and an oracle that always gives the same answer.
\<close>

definition gemini_answer :: "pstr \<Rightarrow> json" where
  "gemini_answer raw =
     JDict [(ascii ''candidates'',
       JList [JDict [(ascii ''content'',
         JDict [(ascii ''parts'', JList [JDict [(ascii ''text'', JStr raw)]])])]])]"

definition example_env :: "place list list \<Rightarrow> json option response \<Rightarrow> nat \<Rightarrow> nat env" where
  "example_env pages answer patch_status =
     \<lparr>http_get = (\<lambda>w offs lim.
        (Response 200 (Some (if w < length pages then pages ! w else [])), Suc w)),
      http_post = (\<lambda>w t. (answer, w)),
      http_patch = (\<lambda>w pid payload. (Response patch_status (), w))\<rparr>"

definition io0 :: "nat io" where
  "io0 = \<lparr>world = 0, trace = []\<rparr>"

text \<open>
  An answer of the oracle to \<open>Gr??njan\<close>: the repaired name in double quotes, with white
  space around it.
\<close>

definition quoted_raw :: pstr where
  "quoted_raw = [32, 34] @ ascii ''Gro'' @ [382] @ ascii ''njan'' @ [34, 10]"

definition quoting_env :: "nat env" where
  "quoting_env = example_env [] (Response 200 (Some (gemini_answer quoted_raw))) 204"

text \<open>
  A title with double quotes of its own, and an oracle that repairs it and keeps them.
\<close>

definition quoted_title :: pstr where
  "quoted_title = ascii ''Bar '' @ [34] @ ascii ''Gr??njan'' @ [34]"

definition requoting_env :: "nat env" where
  "requoting_env =
     example_env []
       (Response 200
         (Some (gemini_answer (ascii ''Bar '' @ [34] @ ascii ''Gro'' @ [382] @ ascii ''njan'' @ [34]))))
       204"

text \<open>An oracle whose answer has an empty candidate list.\<close>

definition no_candidate_env :: "nat env" where
  "no_candidate_env =
     example_env [] (Response 200 (Some (JDict [(ascii ''candidates'', JList [])]))) 204"

text \<open>
  The scenario of the specification: a store with the two rows \<open>Pore?\<close> and \<open>Split\<close>, and
  a store with one row \<open>??\<close> together with an oracle that answers with the empty string.
\<close>

definition row_porec :: place where
  "row_porec = \<lparr>place_id = 1, title = Some (ascii ''Pore?''), description = None\<rparr>"

definition row_split :: place where
  "row_split = \<lparr>place_id = 2, title = Some (ascii ''Split''), description = None\<rparr>"

definition scenario_env :: "nat env" where
  "scenario_env = example_env [[row_porec, row_split]] ConnectionFailed 204"



text \<open>
  A store that cannot be reached when a row is written, and a store whose first row has a
  title of thirty letters, a surrogate and a \<open>?\<close>, together with an oracle that answers
  with thirty double quotes.
\<close>

definition offline_env :: "nat env" where
  "offline_env =
     (example_env [] ConnectionFailed 204)
       \<lparr>http_patch := (\<lambda>w pid payload. (ConnectionFailed, w))\<rparr>"




text \<open>The states of the scenario after the first and after the second pass of the loop, with page size 2.\<close>

definition scenario_state1 :: "nat state" where
  "scenario_state1 =
     \<lparr>st_io = \<lparr>world = 1, trace =
          [Print Starting, Print (Scanning 0), Get 0 2,
           Print (Fix 1 (Some (ascii ''Pore?'')) (Some (ascii ''Pore'' @ [269]))),
           Patch 1 [(ascii ''title'', ascii ''Pore'' @ [269])], Print Saved]\<rparr>,
       offset = 2, total_fixed = 1, total_scanned = 2\<rparr>"

definition scenario_state2 :: "nat state" where
  "scenario_state2 =
     scenario_state1\<lparr>st_io := \<lparr>world = 2, trace = trace (st_io scenario_state1) @
        [Print (Scanning 2), Get 2 2]\<rparr>\<rparr>"

section \<open>Strings: basic facts\<close>

lemma str_in_sublist: "str_in sub t = sublist sub t"
  by (induction t) (auto simp: sublist_Cons_right)

lemma str_in_single: "str_in [c] t \<longleftrightarrow> c \<in> set t"
  by (induction t) auto

lemma str_in_set: "str_in sub t \<Longrightarrow> set sub \<subseteq> set t"
  by (simp add: str_in_sublist set_mono_sublist)

lemma str_replace_single_filter: "str_replace [q] [] t = filter (\<lambda>c. c \<noteq> q) t"
  by (induction t) auto

section \<open>The oracle\<close>

lemma has_candidates_gemini_answer: "has_candidates (gemini_answer raw) = Inr True"
  by (simp add: has_candidates_def gemini_answer_def then_do_def ascii_def)

lemma candidate_text_gemini_answer: "candidate_text (gemini_answer raw) = Inr (strip raw)"
  by (simp add: candidate_text_def gemini_answer_def then_do_def ascii_def)

lemma strip_quoted_raw: "strip quoted_raw = [34] @ ascii ''Gro'' @ [382] @ ascii ''njan'' @ [34]"
  by (simp add: quoted_raw_def strip_def isspace_def ascii_def)

text \<open>
  C1. When the oracle answers with status 200 and a body whose candidate list is present
  and not empty, and \<open>fixed\<close> is the trimmed text of the first candidate, then
  \<open>ask_gemini_to_fix\<close> returns its input if the length of \<open>fixed\<close> differs from the length
  of the input by more than 5, and otherwise returns \<open>fixed\<close> with every double quote
  (code point 34) removed. The gate compares the length of the trimmed text, before the
  quotes are removed.
\<close>

theorem ask_gemini_sanity_gate:
  assumes "http_post env (world io) t = (Response 200 (Some result), w)"
      and "has_candidates result = Inr True"
      and "candidate_text result = Inr fixed"
  shows "fst (ask_gemini_to_fix env t io) =
           (if 5 < abs (int (length fixed) - int (length t)) then t
            else str_replace [34] [] fixed)"
  using assms by (simp add: ask_gemini_to_fix_def gemini_try_def then_do_def)

theorem ask_gemini_sanity_gate_witness:
  "http_post quoting_env (world io0) (ascii ''Gr??njan'')
     = (Response 200 (Some (gemini_answer quoted_raw)), 0)
   \<and> has_candidates (gemini_answer quoted_raw) = Inr True
   \<and> candidate_text (gemini_answer quoted_raw) = Inr (strip quoted_raw)
   \<and> fst (ask_gemini_to_fix quoting_env (ascii ''Gr??njan'') io0)
       = ascii ''Gro'' @ [382] @ ascii ''njan''"
proof -
  have p: "http_post quoting_env (world io0) (ascii ''Gr??njan'')
             = (Response 200 (Some (gemini_answer quoted_raw)), 0)"
    by (simp add: quoting_env_def example_env_def io0_def)
  have h: "has_candidates (gemini_answer quoted_raw) = Inr True"
    by (rule has_candidates_gemini_answer)
  have c: "candidate_text (gemini_answer quoted_raw) = Inr (strip quoted_raw)"
    by (rule candidate_text_gemini_answer)
  show ?thesis
    using p h c ask_gemini_sanity_gate [OF p h c] by (simp add: strip_quoted_raw ascii_def)
qed

lemma has_candidates_absent:
  "map_of kvs (ascii ''candidates'') = None \<Longrightarrow> has_candidates (JDict kvs) = Inr False"
  by (simp add: has_candidates_def then_do_def map_of_eq_None_iff)

lemma has_candidates_empty:
  "map_of kvs (ascii ''candidates'') = Some (JList []) \<Longrightarrow> has_candidates (JDict kvs) = Inr False"
  by (auto simp: has_candidates_def then_do_def)

lemma gemini_try_no_candidates:
  "has_candidates result \<noteq> Inr True \<Longrightarrow>
     gemini_try t (Response 200 (Some result)) = Inr None \<or> (\<exists>e. gemini_try t (Response 200 (Some result)) = Inl e)"
  by (cases "has_candidates result") (auto simp: gemini_try_def then_do_def)

lemma ask_gemini_returns_input_if:
  assumes "http_post env (world io) t = (resp, w)"
      and "gemini_try t resp = Inr None \<or> (\<exists>e. gemini_try t resp = Inl e)"
  shows "fst (ask_gemini_to_fix env t io) = t"
  using assms by (auto simp: ask_gemini_to_fix_def)

text \<open>
  C6. Whenever the call of the oracle fails, \<open>ask_gemini_to_fix\<close> returns its input: when
  \<open>requests.post\<close> raises, when the status is not 200, when the body is not JSON, when the
  body has no candidate list or an empty one, and when any step of reading the candidate
  raises. The failure does not reach the caller: the function has a value in every case,
  and an exception of the \<open>try\<close> only adds a printed line to the trace.
\<close>

theorem ask_gemini_failure_returns_input:
  assumes post: "http_post env (world io) t = (resp, w)"
      and failure:
        "resp = ConnectionFailed
         \<or> (\<exists>status body. resp = Response status body \<and> status \<noteq> 200)
         \<or> resp = Response 200 None
         \<or> (\<exists>kvs. resp = Response 200 (Some (JDict kvs)) \<and> map_of kvs (ascii ''candidates'') = None)
         \<or> (\<exists>kvs. resp = Response 200 (Some (JDict kvs))
               \<and> map_of kvs (ascii ''candidates'') = Some (JList []))
         \<or> (\<exists>result e. resp = Response 200 (Some result)
               \<and> (has_candidates result = Inl e \<or> candidate_text result = Inl e))"
  shows "fst (ask_gemini_to_fix env t io) = t"
proof -
  have "gemini_try t resp = Inr None \<or> (\<exists>e. gemini_try t resp = Inl e)"
    using failure
  proof (elim disjE exE conjE)
    assume "resp = ConnectionFailed"
    then show ?thesis by (simp add: gemini_try_def)
  next
    fix status body assume "resp = Response status body" "status \<noteq> 200"
    then show ?thesis by (simp add: gemini_try_def)
  next
    assume "resp = Response 200 None"
    then show ?thesis by (simp add: gemini_try_def)
  next
    fix kvs assume "resp = Response 200 (Some (JDict kvs))" "map_of kvs (ascii ''candidates'') = None"
    then show ?thesis using gemini_try_no_candidates [of "JDict kvs" t]
      by (simp add: has_candidates_absent)
  next
    fix kvs assume "resp = Response 200 (Some (JDict kvs))"
      "map_of kvs (ascii ''candidates'') = Some (JList [])"
    then show ?thesis using gemini_try_no_candidates [of "JDict kvs" t]
      by (simp add: has_candidates_empty)
  next
    fix result e assume "resp = Response 200 (Some result)" "has_candidates result = Inl e"
    then show ?thesis using gemini_try_no_candidates [of result t] by simp
  next
    fix result e assume r: "resp = Response 200 (Some result)" "candidate_text result = Inl e"
    show ?thesis
    proof (cases "has_candidates result = Inr True")
      case True
      with r show ?thesis by (simp add: gemini_try_def then_do_def)
    next
      case False
      with r show ?thesis using gemini_try_no_candidates [of result t] by simp
    qed
  qed
  with post show ?thesis by (rule ask_gemini_returns_input_if)
qed

theorem ask_gemini_failure_returns_input_witness:
  "http_post no_candidate_env (world io0) (ascii ''Gr??njan'')
     = (Response 200 (Some (JDict [(ascii ''candidates'', JList [])])), 0)
   \<and> map_of [(ascii ''candidates'', JList [])] (ascii ''candidates'') = Some (JList [])
   \<and> fst (ask_gemini_to_fix no_candidate_env (ascii ''Gr??njan'') io0) = ascii ''Gr??njan''"
proof -
  have p: "http_post no_candidate_env (world io0) (ascii ''Gr??njan'')
     = (Response 200 (Some (JDict [(ascii ''candidates'', JList [])])), 0)"
    by (simp add: no_candidate_env_def example_env_def io0_def)
  have m: "map_of [(ascii ''candidates'', JList [])] (ascii ''candidates'') = Some (JList [])"
    by simp
  from m have "\<exists>kvs. Response 200 (Some (JDict [(ascii ''candidates'', JList [])])) = Response 200 (Some (JDict kvs))
               \<and> map_of kvs (ascii ''candidates'') = Some (JList [])"
    by blast
  then show ?thesis
    using p m ask_gemini_failure_returns_input [OF p] by blast
qed

text \<open>
  C9. When the candidate of the oracle passes the length gate, the value that
  \<open>ask_gemini_to_fix\<close> returns contains no double quote (code point 34) at all, whether
  or not the input contained one.
\<close>

theorem ask_gemini_result_has_no_quote:
  assumes "http_post env (world io) t = (Response 200 (Some result), w)"
      and "has_candidates result = Inr True"
      and "candidate_text result = Inr fixed"
      and "abs (int (length fixed) - int (length t)) \<le> 5"
  shows "34 \<notin> set (fst (ask_gemini_to_fix env t io))"
  using assms
  by (simp add: ask_gemini_to_fix_def gemini_try_def then_do_def str_replace_single_filter)

lemma strip_requoted:
  "strip (ascii ''Bar '' @ [34] @ ascii ''Gro'' @ [382] @ ascii ''njan'' @ [34]) = ascii ''Bar '' @ [34] @ ascii ''Gro'' @ [382] @ ascii ''njan'' @ [34]"
  by (simp add: strip_def isspace_def ascii_def)

theorem ask_gemini_result_has_no_quote_witness:
  "http_post requoting_env (world io0) quoted_title
     = (Response 200 (Some (gemini_answer (ascii ''Bar '' @ [34] @ ascii ''Gro'' @ [382] @ ascii ''njan'' @ [34]))), 0)
   \<and> has_candidates (gemini_answer (ascii ''Bar '' @ [34] @ ascii ''Gro'' @ [382] @ ascii ''njan'' @ [34])) = Inr True
   \<and> candidate_text (gemini_answer (ascii ''Bar '' @ [34] @ ascii ''Gro'' @ [382] @ ascii ''njan'' @ [34]))
       = Inr (ascii ''Bar '' @ [34] @ ascii ''Gro'' @ [382] @ ascii ''njan'' @ [34])
   \<and> abs (int (length (ascii ''Bar '' @ [34] @ ascii ''Gro'' @ [382] @ ascii ''njan'' @ [34]))
           - int (length quoted_title)) \<le> 5
   \<and> 34 \<in> set quoted_title
   \<and> 34 \<notin> set (fst (ask_gemini_to_fix requoting_env quoted_title io0))"
proof -
  let ?a = "ascii ''Bar '' @ [34] @ ascii ''Gro'' @ [382] @ ascii ''njan'' @ [34]"
  have p: "http_post requoting_env (world io0) quoted_title = (Response 200 (Some (gemini_answer ?a)), 0)"
    by (simp add: requoting_env_def example_env_def io0_def)
  have h: "has_candidates (gemini_answer ?a) = Inr True"
    by (rule has_candidates_gemini_answer)
  have c: "candidate_text (gemini_answer ?a) = Inr ?a"
    by (simp only: candidate_text_gemini_answer strip_requoted)
  have l: "abs (int (length ?a) - int (length quoted_title)) \<le> 5"
    by (simp add: quoted_title_def ascii_def)
  have q: "34 \<in> set quoted_title"
    by (simp add: quoted_title_def)
  show ?thesis
    using p h c l q ask_gemini_result_has_no_quote [OF p h c l] by blast
qed

section \<open>The dictionary pass\<close>

lemma str_in_Nil [simp]: "str_in [] t"
  by (cases t) auto

lemma manual_pass_no_match:
  "\<forall>k\<in>set (map fst M). \<not> str_in k t \<Longrightarrow> manual_pass M t = t"
  by (induction M arbitrary: t) auto

lemma prefix_str_replace_disjoint:
  assumes "old \<noteq> []" "new \<noteq> []"
  shows "set sub \<inter> set new = {} \<Longrightarrow> prefix sub (str_replace old new t) \<Longrightarrow> prefix sub t"
proof (induction t arbitrary: sub)
  case Nil
  with assms(1) show ?case by simp
next
  case (Cons c cs)
  show ?case
  proof (cases sub)
    case Nil
    then show ?thesis by simp
  next
    case sub: (Cons s sub')
    show ?thesis
    proof (cases "prefix old (c # cs)")
      case True
      obtain n ns where new: "new = n # ns" using assms(2) by (cases new) auto
      from True assms(1) Cons.prems(2)
      have "prefix sub (new @ str_replace old new (drop (length old) (c # cs)))"
        by simp
      with new sub have "s = n" by simp
      with new sub Cons.prems(1) show ?thesis by auto
    next
      case False
      with assms(1) Cons.prems(2) have "prefix sub (c # str_replace old new cs)" by simp
      with sub have "s = c" "prefix sub' (str_replace old new cs)" by simp_all
      moreover have "set sub' \<inter> set new = {}" using Cons.prems(1) sub by auto
      ultimately show ?thesis using Cons.IH[of sub'] sub by simp
    qed
  qed
qed

lemma str_in_append_disjoint:
  "set sub \<inter> set v = {} \<Longrightarrow> str_in sub (v @ r) \<Longrightarrow> str_in sub r"
proof (induction v)
  case Nil
  then show ?case by simp
next
  case (Cons a v)
  show ?case
  proof (cases sub)
    case Nil
    then show ?thesis by simp
  next
    case sub: (Cons s sub')
    with Cons.prems have "\<not> prefix sub (a # v @ r)" by auto
    with Cons.prems Cons.IH show ?thesis by auto
  qed
qed

lemma str_in_drop: "str_in sub (drop n t) \<Longrightarrow> str_in sub t"
proof (induction t arbitrary: n)
  case Nil
  then show ?case by simp
next
  case (Cons c cs)
  then show ?case by (cases n) auto
qed

lemma str_in_str_replace_disjoint:
  assumes "old \<noteq> []" "new \<noteq> []" "set sub \<inter> set new = {}"
  shows "str_in sub (str_replace old new t) \<Longrightarrow> str_in sub t"
proof (induction "length t" arbitrary: t rule: less_induct)
  case less
  show ?case
  proof (cases t)
    case Nil
    with less.prems assms(1) show ?thesis by simp
  next
    case t: (Cons c cs)
    show ?thesis
    proof (cases "prefix old (c # cs)")
      case True
      with assms(1) less.prems t
      have "str_in sub (new @ str_replace old new (drop (length old) t))" by simp
      then have "str_in sub (str_replace old new (drop (length old) t))"
        using assms(3) by (rule str_in_append_disjoint[rotated])
      moreover have "length (drop (length old) t) < length t"
        using assms(1) t by simp
      ultimately have "str_in sub (drop (length old) t)" by (rule less.hyps[rotated])
      then show ?thesis by (rule str_in_drop)
    next
      case False
      with assms(1) less.prems t have s: "str_in sub (c # str_replace old new cs)" by simp
      show ?thesis
      proof (cases "prefix sub (c # str_replace old new cs)")
        case True
        with False assms(1) have "prefix sub (str_replace old new (c # cs))" by simp
        with assms have "prefix sub (c # cs)" by (blast intro: prefix_str_replace_disjoint)
        with t show ?thesis by simp
      next
        case False
        with s have "str_in sub (str_replace old new cs)" by simp
        moreover have "length cs < length t" using t by simp
        ultimately have "str_in sub cs" by (rule less.hyps[rotated])
        with t show ?thesis by simp
      qed
    qed
  qed
qed


lemma manual_pass_single:
  assumes "later_keys_ok (pre @ (k, v) # post)"
      and "\<forall>k'\<in>set (map fst pre). \<not> str_in k' t"
      and "str_in k t"
      and "\<forall>k'\<in>set (map fst post). \<not> str_in k' t"
      and "63 \<notin> set (str_replace k v t)" "195 \<notin> set (str_replace k v t)"
  shows "manual_pass (pre @ (k, v) # post) t = str_replace k v t"
  using assms(1,2)
proof (induction pre)
  case Nil
  have "\<not> str_in k' (str_replace k v t)" if k': "k' \<in> set (map fst post)" for k'
  proof
    assume in_r: "str_in k' (str_replace k v t)"
    from Nil.prems(1) k' have ok: "k \<noteq> []" "v \<noteq> []"
      "63 \<in> set k' \<or> 195 \<in> set k' \<or> set k' \<inter> set v = {}"
      by (auto simp: list_all_iff)
    from in_r have "set k' \<subseteq> set (str_replace k v t)" by (rule str_in_set)
    with assms(5,6) ok(3) have "set k' \<inter> set v = {}" by auto
    with ok(1,2) in_r have "str_in k' t" by (blast intro: str_in_str_replace_disjoint)
    with assms(4) k' show False by blast
  qed
  then have "manual_pass post (str_replace k v t) = str_replace k v t"
    by (simp add: manual_pass_no_match)
  with assms(3) show ?case by simp
next
  case (Cons a pre)
  obtain k0 v0 where a: "a = (k0, v0)" by (cases a)
  with Cons.prems show ?case using Cons.IH by simp
qed

lemma later_keys_ok_MANUAL_FIXES: "later_keys_ok MANUAL_FIXES"
  by (simp add: MANUAL_FIXES_def ascii_def)

lemma distinct_keys: "distinct (map fst MANUAL_FIXES)"
  by (simp add: MANUAL_FIXES_def ascii_def)

lemma filter_single_str_in:
  "filter (\<lambda>k. str_in k t) ks = [k] \<Longrightarrow> str_in k t"
proof -
  assume "filter (\<lambda>k. str_in k t) ks = [k]"
  then have "k \<in> set (filter (\<lambda>k. str_in k t) ks)" by simp
  then show ?thesis by simp
qed

lemma manual_pass_only_key:
  assumes "63 \<notin> set (str_replace k v t)" "195 \<notin> set (str_replace k v t)"
  shows "later_keys_ok M \<Longrightarrow> filter (\<lambda>k. str_in k t) (map fst M) = [k] \<Longrightarrow>
         map_of M k = Some v \<Longrightarrow> manual_pass M t = str_replace k v t"
proof (induction M)
  case Nil
  then show ?case by simp
next
  case (Cons a M)
  obtain k0 v0 where a: "a = (k0, v0)" by (cases a)
  show ?case
  proof (cases "str_in k0 t")
    case True
    with Cons.prems(2) a have k0: "k0 = k" and rest: "filter (\<lambda>k. str_in k t) (map fst M) = []"
      by simp_all
    from Cons.prems(3) a k0 have v0: "v0 = v" by simp
    from rest have none: "\<forall>k'\<in>set (map fst M). \<not> str_in k' t"
      by (simp add: filter_empty_conv)
    have "manual_pass ([] @ (k, v) # M) t = str_replace k v t"
    proof (rule manual_pass_single)
      show "later_keys_ok ([] @ (k, v) # M)" using Cons.prems(1) a k0 v0 by simp
      show "\<forall>k'\<in>set (map fst []). \<not> str_in k' t" by simp
      show "str_in k t" using True k0 by simp
      show "\<forall>k'\<in>set (map fst M). \<not> str_in k' t" by (rule none)
      show "63 \<notin> set (str_replace k v t)" by (rule assms(1))
      show "195 \<notin> set (str_replace k v t)" by (rule assms(2))
    qed
    with a k0 v0 show ?thesis by simp
  next
    case False
    with Cons.prems(2) a have rest: "filter (\<lambda>k. str_in k t) (map fst M) = [k]" by simp
    then have "str_in k t" by (rule filter_single_str_in)
    with False have "k \<noteq> k0" by blast
    with Cons.prems(3) a have m: "map_of M k = Some v" by simp
    from Cons.prems(1) a have "later_keys_ok M" by simp
    then have "manual_pass M t = str_replace k v t" using rest m by (rule Cons.IH)
    with False a show ?thesis by simp
  qed
qed

lemma dictionary_keys_nonempty: "k \<in> set (map fst MANUAL_FIXES) \<Longrightarrow> k \<noteq> []"
  by (simp add: MANUAL_FIXES_def ascii_def) blast

text \<open>
  C2, as amended. When exactly one dictionary key occurs in a text, and the text in which
  every occurrence of that key is replaced by its value contains neither \<open>?\<close> (code point
  63) nor the marker with code point 195, then \<open>sanitize_text\<close> returns that replaced text
  and has no effect at all: no call of the oracle, no delay. Without the condition on the
  replaced text the oracle is called, as the counterexample below shows.
\<close>

theorem sanitize_single_key:
  assumes "matching_keys t = [broken]"
      and "map_of MANUAL_FIXES broken = Some fixed"
      and "\<not> str_in [63] (str_replace broken fixed t)"
      and "\<not> str_in [195] (str_replace broken fixed t)"
  shows "sanitize_text env (Some t) io = (Inr (Some (str_replace broken fixed t)), io)"
proof -
  have m: "filter (\<lambda>k. str_in k t) (map fst MANUAL_FIXES) = [broken]"
    using assms(1) by (simp add: matching_keys_def)
  have a: "63 \<notin> set (str_replace broken fixed t)" using assms(3) by (simp add: str_in_single)
  have b: "195 \<notin> set (str_replace broken fixed t)" using assms(4) by (simp add: str_in_single)
  have pass: "manual_pass MANUAL_FIXES t = str_replace broken fixed t"
    using a b later_keys_ok_MANUAL_FIXES m assms(2) by (rule manual_pass_only_key)
  from m have "broken \<in> set (filter (\<lambda>k. str_in k t) (map fst MANUAL_FIXES))" by simp
  then have k: "str_in broken t" and mem: "broken \<in> set (map fst MANUAL_FIXES)" by simp_all
  from mem have "broken \<noteq> []" by (rule dictionary_keys_nonempty)
  with k have "t \<noteq> []" by (cases t) auto
  with pass assms(3,4) show ?thesis by (simp add: sanitize_text_def)
qed


theorem sanitize_single_key_witness:
  "matching_keys (ascii ''Pore?'') = [ascii ''Pore?'']
   \<and> map_of MANUAL_FIXES (ascii ''Pore?'') = Some (ascii ''Pore'' @ [269])
   \<and> \<not> str_in [63] (str_replace (ascii ''Pore?'') (ascii ''Pore'' @ [269]) (ascii ''Pore?''))
   \<and> \<not> str_in [195] (str_replace (ascii ''Pore?'') (ascii ''Pore'' @ [269]) (ascii ''Pore?''))
   \<and> sanitize_text no_candidate_env (Some (ascii ''Pore?'')) io0
       = (Inr (Some (ascii ''Pore'' @ [269])), io0)"
proof -
  have a: "matching_keys (ascii ''Pore?'') = [ascii ''Pore?'']"
    by (simp add: matching_keys_def MANUAL_FIXES_def ascii_def)
  have b: "map_of MANUAL_FIXES (ascii ''Pore?'') = Some (ascii ''Pore'' @ [269])"
    by (simp add: MANUAL_FIXES_def ascii_def)
  have r: "str_replace (ascii ''Pore?'') (ascii ''Pore'' @ [269]) (ascii ''Pore?'') = ascii ''Pore'' @ [269]"
    by (simp add: ascii_def)
  have c: "\<not> str_in [63] (str_replace (ascii ''Pore?'') (ascii ''Pore'' @ [269]) (ascii ''Pore?''))"
    unfolding r by (simp add: ascii_def)
  have d: "\<not> str_in [195] (str_replace (ascii ''Pore?'') (ascii ''Pore'' @ [269]) (ascii ''Pore?''))"
    unfolding r by (simp add: ascii_def)
  have e: "sanitize_text no_candidate_env (Some (ascii ''Pore?'')) io0
             = (Inr (Some (ascii ''Pore'' @ [269])), io0)"
    using sanitize_single_key [OF a b c d, of no_candidate_env io0] by (simp only: r)
  from a b c d e show ?thesis by (intro conjI)
qed

lemma manual_pass_cafe: "manual_pass MANUAL_FIXES (ascii ''Caf??'') = ascii ''Caf'' @ [233, 63]"
  by (simp add: MANUAL_FIXES_def ascii_def)

lemma gemini_try_no_candidate:
  "gemini_try t (Response 200 (Some (JDict [(ascii ''candidates'', JList [])]))) = Inr None"
  by (simp add: gemini_try_def has_candidates_def then_do_def)

lemma ask_gemini_no_candidate:
  "ask_gemini_to_fix no_candidate_env t io = (t, io\<lparr>trace := trace io @ [Post t]\<rparr>)"
  by (simp add: ask_gemini_to_fix_def no_candidate_env_def example_env_def gemini_try_no_candidate)

theorem sanitize_single_key_counterexample:
  "matching_keys (ascii ''Caf??'') = [ascii ''Caf?'']
   \<and> trace (snd (sanitize_text no_candidate_env (Some (ascii ''Caf??'')) io0))
       = [Print (Querying (ascii ''Caf'' @ [233, 63])), Post (ascii ''Caf'' @ [233, 63]), Sleep 1]"
proof -
  have a: "matching_keys (ascii ''Caf??'') = [ascii ''Caf?'']"
    by (simp add: matching_keys_def MANUAL_FIXES_def ascii_def)
  have n: "ascii ''Caf??'' \<noteq> []" by (simp add: ascii_def)
  have q: "str_in [63] (ascii ''Caf'' @ [233, 63])" by (simp add: ascii_def)
  have k: "take 30 (ascii ''Caf'' @ [233, 63]) = ascii ''Caf'' @ [233, 63]"
    by (simp add: ascii_def)
  have "encodable (ascii ''Caf'' @ [233, 63])" by (simp add: encodable_def ascii_def)
  then have "py_print (Querying (ascii ''Caf'' @ [233, 63])) io0
               = Inr (emit (Print (Querying (ascii ''Caf'' @ [233, 63]))) io0)"
    by (simp add: py_print_def)
  then have "trace (snd (sanitize_text no_candidate_env (Some (ascii ''Caf??'')) io0))
       = [Print (Querying (ascii ''Caf'' @ [233, 63])), Post (ascii ''Caf'' @ [233, 63]), Sleep 1]"
    using n q
    by (simp add: sanitize_text_def Let_def manual_pass_cafe k ask_gemini_no_candidate emit_def
        io0_def del: take_append)
  with a show ?thesis by simp
qed

section \<open>The sanitizer\<close>


lemma effects_append [simp]: "effects (xs @ ys) = effects xs @ effects ys"
  by (simp add: effects_def)


lemma py_print_encodable:
  "list_all encodable (printed_texts l) \<Longrightarrow> py_print l io = Inr (emit (Print l) io)"
  by (simp add: py_print_def)

lemma py_print_surrogate:
  "\<not> list_all encodable (printed_texts l) \<Longrightarrow> py_print l io = Inl UnicodeEncodeError"
  by (simp add: py_print_def)





text \<open>
  C4. On a text that contains no dictionary key, no \<open>?\<close> and no marker with code point
  195, \<open>sanitize_text\<close> returns the text and has no effect; an absent value and the empty
  string are returned as they are, with no effect either (the function returns before the
  dictionary pass).
\<close>

theorem sanitize_identity:
  "(matching_keys t = [] \<and> \<not> str_in [63] t \<and> \<not> str_in [195] t
      \<longrightarrow> sanitize_text env (Some t) io = (Inr (Some t), io))
   \<and> sanitize_text env None io = (Inr None, io)
   \<and> sanitize_text env (Some []) io = (Inr (Some []), io)"
proof (intro conjI impI)
  assume a: "matching_keys t = [] \<and> \<not> str_in [63] t \<and> \<not> str_in [195] t"
  then have "\<forall>k\<in>set (map fst MANUAL_FIXES). \<not> str_in k t"
    by (simp add: matching_keys_def filter_empty_conv)
  then have "manual_pass MANUAL_FIXES t = t" by (rule manual_pass_no_match)
  with a show "sanitize_text env (Some t) io = (Inr (Some t), io)"
    by (simp add: sanitize_text_def Let_def)
next
  show "sanitize_text env None io = (Inr None, io)" by (simp add: sanitize_text_def)
next
  show "sanitize_text env (Some []) io = (Inr (Some []), io)" by (simp add: sanitize_text_def)
qed

theorem sanitize_identity_witness:
  "matching_keys (ascii ''Split'') = [] \<and> \<not> str_in [63] (ascii ''Split'')
   \<and> \<not> str_in [195] (ascii ''Split'')
   \<and> sanitize_text quoting_env (Some (ascii ''Split'')) io0 = (Inr (Some (ascii ''Split'')), io0)"
proof -
  have a: "matching_keys (ascii ''Split'') = []"
    by (simp add: matching_keys_def MANUAL_FIXES_def ascii_def)
  have b: "\<not> str_in [63] (ascii ''Split'')" by (simp add: ascii_def)
  have c: "\<not> str_in [195] (ascii ''Split'')" by (simp add: ascii_def)
  from a b c sanitize_identity [of "ascii ''Split''" quoting_env io0] show ?thesis
    by blast
qed

section \<open>The writer\<close>

lemma field_items_falsy:
  "field_items name v = [] \<longleftrightarrow> v = None \<or> v = Some []"
  by (cases v) (auto simp: field_items_def)

text \<open>
  C7. When neither field has a value (absent or empty), and only then, the payload is
  empty, and \<open>update_place\<close> sends nothing and returns \<open>False\<close>. When a field has a value,
  one \<open>PATCH\<close> with the payload is sent, and the result is \<open>True\<close> exactly when the store
  responds with status 200 or 204; it is \<open>False\<close> exactly when the store responds with
  another status, and the exception of \<open>requests.patch\<close> exactly when the store does not
  respond.
\<close>

theorem update_place_result:
  "((new_title = None \<or> new_title = Some []) \<and> (new_description = None \<or> new_description = Some [])
      \<longrightarrow> update_place env pid new_title new_description io = (Inr False, io))
   \<and> (payload = field_items ''title'' new_title @ field_items ''description'' new_description
      \<longrightarrow> (payload = [] \<longleftrightarrow> (new_title = None \<or> new_title = Some [])
                              \<and> (new_description = None \<or> new_description = Some [])))
   \<and> (payload = field_items ''title'' new_title @ field_items ''description'' new_description
        \<and> payload \<noteq> []
      \<longrightarrow> snd (update_place env pid new_title new_description io)
            = io\<lparr>world := snd (http_patch env (world io) pid payload),
                 trace := trace io @ [Patch pid payload]\<rparr>
        \<and> (fst (update_place env pid new_title new_description io) = Inr True
             \<longleftrightarrow> fst (http_patch env (world io) pid payload) = Response 200 ()
                 \<or> fst (http_patch env (world io) pid payload) = Response 204 ())
        \<and> (fst (update_place env pid new_title new_description io) = Inr False
             \<longleftrightarrow> (\<exists>status. fst (http_patch env (world io) pid payload) = Response status ()
                     \<and> status \<noteq> 200 \<and> status \<noteq> 204))
        \<and> (fst (update_place env pid new_title new_description io) = Inl RequestException
             \<longleftrightarrow> fst (http_patch env (world io) pid payload) = ConnectionFailed)
        \<and> (fst (http_patch env (world io) pid payload) = ConnectionFailed
             \<or> fst (update_place env pid new_title new_description io)
                 = Inr (fst (http_patch env (world io) pid payload) = Response 200 ()
                        \<or> fst (http_patch env (world io) pid payload) = Response 204 ())))"
proof (intro conjI impI)
  assume "(new_title = None \<or> new_title = Some [])
          \<and> (new_description = None \<or> new_description = Some [])"
  then show "update_place env pid new_title new_description io = (Inr False, io)"
    by (auto simp: update_place_def Let_def field_items_falsy)
next
  assume "payload = field_items ''title'' new_title @ field_items ''description'' new_description"
  then show "payload = [] \<longleftrightarrow> (new_title = None \<or> new_title = Some [])
                              \<and> (new_description = None \<or> new_description = Some [])"
    by (simp add: field_items_falsy)
next
  assume a: "payload = field_items ''title'' new_title @ field_items ''description'' new_description
             \<and> payload \<noteq> []"
  obtain resp w where h: "http_patch env (world io) pid payload = (resp, w)"
    by (cases "http_patch env (world io) pid payload")
  have u: "update_place env pid new_title new_description io =
             (case resp of
                ConnectionFailed \<Rightarrow> Inl RequestException
              | Response status body \<Rightarrow> Inr (status = 200 \<or> status = 204),
              io\<lparr>world := w, trace := trace io @ [Patch pid payload]\<rparr>)"
    using a h by (cases resp) (auto simp: update_place_def Let_def)
  show "snd (update_place env pid new_title new_description io)
            = io\<lparr>world := snd (http_patch env (world io) pid payload),
                 trace := trace io @ [Patch pid payload]\<rparr>"
    using u h by simp
  show "fst (update_place env pid new_title new_description io) = Inr True
             \<longleftrightarrow> fst (http_patch env (world io) pid payload) = Response 200 ()
                 \<or> fst (http_patch env (world io) pid payload) = Response 204 ()"
    using u h by (cases resp) auto
  show "fst (update_place env pid new_title new_description io) = Inr False
             \<longleftrightarrow> (\<exists>status. fst (http_patch env (world io) pid payload) = Response status ()
                     \<and> status \<noteq> 200 \<and> status \<noteq> 204)"
    using u h by (cases resp) auto
  show "fst (update_place env pid new_title new_description io) = Inl RequestException
             \<longleftrightarrow> fst (http_patch env (world io) pid payload) = ConnectionFailed"
    using u h by (cases resp) auto
  show "fst (http_patch env (world io) pid payload) = ConnectionFailed
             \<or> fst (update_place env pid new_title new_description io)
                 = Inr (fst (http_patch env (world io) pid payload) = Response 200 ()
                        \<or> fst (http_patch env (world io) pid payload) = Response 204 ())"
    using u h by (cases resp) auto
qed

theorem update_place_result_witness:
  "update_place (example_env [] ConnectionFailed 204) 7 None None io0 = (Inr False, io0)
   \<and> [(ascii ''title'', ascii ''Vrsar'')]
        = field_items ''title'' (Some (ascii ''Vrsar'')) @ field_items ''description'' None
   \<and> http_patch (example_env [] ConnectionFailed 204) (world io0) 7 [(ascii ''title'', ascii ''Vrsar'')]
        = (Response 204 (), 0)
   \<and> fst (update_place (example_env [] ConnectionFailed 204) 7 (Some (ascii ''Vrsar'')) None io0)
        = Inr True
   \<and> snd (update_place (example_env [] ConnectionFailed 204) 7 (Some (ascii ''Vrsar'')) None io0)
        = io0\<lparr>world := 0, trace := trace io0 @ [Patch 7 [(ascii ''title'', ascii ''Vrsar'')]]\<rparr>
   \<and> http_patch (example_env [] ConnectionFailed 500) (world io0) 7 [(ascii ''title'', ascii ''Vrsar'')]
        = (Response 500 (), 0)
   \<and> fst (update_place (example_env [] ConnectionFailed 500) 7 (Some (ascii ''Vrsar'')) None io0)
        = Inr False
   \<and> http_patch offline_env (world io0) 7 [(ascii ''title'', ascii ''Vrsar'')]
        = (ConnectionFailed, 0)
   \<and> fst (update_place offline_env 7 (Some (ascii ''Vrsar'')) None io0) = Inl RequestException"
proof -
  let ?env = "example_env [] ConnectionFailed 204"
  let ?env5 = "example_env [] ConnectionFailed 500"
  let ?payload = "[(ascii ''title'', ascii ''Vrsar'')]"
  have f: "?payload = field_items ''title'' (Some (ascii ''Vrsar'')) @ field_items ''description'' None"
    by (simp add: field_items_def ascii_def)
  have n: "?payload \<noteq> []" by simp
  have p: "http_patch ?env (world io0) 7 ?payload = (Response 204 (), 0)"
    by (simp add: example_env_def io0_def)
  have p5: "http_patch ?env5 (world io0) 7 ?payload = (Response 500 (), 0)"
    by (simp add: example_env_def io0_def)
  have po: "http_patch offline_env (world io0) 7 ?payload = (ConnectionFailed, 0)"
    by (simp add: offline_env_def io0_def)
  have a: "update_place ?env 7 None None io0 = (Inr False, io0)"
    using update_place_result [of None None ?env 7 io0] by blast
  note ok = update_place_result [of "Some (ascii ''Vrsar'')" None ?env 7 io0 ?payload]
  from ok f n have "fst (update_place ?env 7 (Some (ascii ''Vrsar'')) None io0) = Inr True
        \<longleftrightarrow> fst (http_patch ?env (world io0) 7 ?payload) = Response 200 ()
            \<or> fst (http_patch ?env (world io0) 7 ?payload) = Response 204 ()"
    by blast
  with p have b: "fst (update_place ?env 7 (Some (ascii ''Vrsar'')) None io0) = Inr True"
    by simp
  from ok f n have "snd (update_place ?env 7 (Some (ascii ''Vrsar'')) None io0)
        = io0\<lparr>world := snd (http_patch ?env (world io0) 7 ?payload),
               trace := trace io0 @ [Patch 7 ?payload]\<rparr>"
    by blast
  with p have c: "snd (update_place ?env 7 (Some (ascii ''Vrsar'')) None io0)
        = io0\<lparr>world := 0, trace := trace io0 @ [Patch 7 ?payload]\<rparr>"
    by simp
  note no = update_place_result [of "Some (ascii ''Vrsar'')" None ?env5 7 io0 ?payload]
  from no f n have "fst (update_place ?env5 7 (Some (ascii ''Vrsar'')) None io0) = Inr False
        \<longleftrightarrow> (\<exists>status. fst (http_patch ?env5 (world io0) 7 ?payload) = Response status ()
                \<and> status \<noteq> 200 \<and> status \<noteq> 204)"
    by blast
  with p5 have d: "fst (update_place ?env5 7 (Some (ascii ''Vrsar'')) None io0) = Inr False"
    by simp
  note off = update_place_result [of "Some (ascii ''Vrsar'')" None offline_env 7 io0 ?payload]
  from off f n have "fst (update_place offline_env 7 (Some (ascii ''Vrsar'')) None io0)
          = Inl RequestException
        \<longleftrightarrow> fst (http_patch offline_env (world io0) 7 ?payload) = ConnectionFailed"
    by blast
  with po have e: "fst (update_place offline_env 7 (Some (ascii ''Vrsar'')) None io0)
          = Inl RequestException"
    by simp
  from a f p b c p5 d po e show ?thesis by (intro conjI)
qed

section \<open>The orchestrator\<close>

lemma process_place_counters:
  "total_scanned (snd (process_place env p st)) = total_scanned st + 1
   \<and> total_fixed (snd (process_place env p st))
       = total_fixed st + (if title_fixed env p (st_io st) then 1 else 0)
   \<and> offset (snd (process_place env p st)) = offset st"
proof -
  obtain s io1 where s: "sanitize_text env (title p) (st_io st) = (s, io1)"
    by (cases "sanitize_text env (title p) (st_io st)")
  show ?thesis
  proof (cases s)
    case (Inl e)
    with s show ?thesis by (simp add: process_place_def title_fixed_def)
  next
    case (Inr new_title)
    show ?thesis
    proof (cases "py_print (Fix (place_id p) (title p) new_title) io1")
      case (Inl e)
      with s Inr show ?thesis by (auto simp: process_place_def title_fixed_def Let_def)
    next
      case pr: (Inr io2)
      obtain r io3 where u: "update_place env (place_id p) new_title None io2 = (r, io3)"
        by (cases "update_place env (place_id p) new_title None io2")
      show ?thesis
        using s Inr pr u by (cases r) (auto simp: process_place_def title_fixed_def Let_def)
    qed
  qed
qed

lemma process_places_counters:
  "total_fixed st \<le> total_scanned st \<Longrightarrow>
     total_fixed (snd (process_places env ps st)) \<le> total_scanned (snd (process_places env ps st))
     \<and> total_scanned (snd (process_places env ps st)) \<le> total_scanned st + length ps
     \<and> (fst (process_places env ps st) = None \<longrightarrow>
          total_scanned (snd (process_places env ps st)) = total_scanned st + length ps)
     \<and> offset (snd (process_places env ps st)) = offset st"
proof (induction ps arbitrary: st)
  case Nil
  then show ?case by simp
next
  case (Cons p ps)
  obtain r st1 where pp: "process_place env p st = (r, st1)" by (cases "process_place env p st")
  from process_place_counters [of env p st] pp
  have c: "total_scanned st1 = total_scanned st + 1"
    "total_fixed st1 = total_fixed st + (if title_fixed env p (st_io st) then 1 else 0)"
    "offset st1 = offset st" by simp_all
  with Cons.prems have inv: "total_fixed st1 \<le> total_scanned st1" by simp
  show ?case
  proof (cases r)
    case None
    with pp have "process_places env (p # ps) st = process_places env ps st1" by simp
    with Cons.IH [OF inv] c show ?thesis by simp
  next
    case (Some e)
    with pp have "process_places env (p # ps) st = (Some e, st1)" by simp
    with inv c show ?thesis by simp
  qed
qed

lemma loop_body_cases:
  assumes "fetch_places env (offset st) b (emit (Print (Scanning (offset st))) (st_io st)) = (r, io2)"
  shows "loop_body env b st =
     (case r of
        Inl e \<Rightarrow> (Some (Crashed e), st\<lparr>st_io := io2\<rparr>)
      | Inr places \<Rightarrow>
          if places = [] then (Some Finished, st\<lparr>st_io := io2\<rparr>)
          else
            (case process_places env places (st\<lparr>st_io := io2\<rparr>) of
               (Some e, st2) \<Rightarrow> (Some (Crashed e), st2)
             | (None, st2) \<Rightarrow>
                 if length places < b then (Some Finished, st2)
                 else (None, st2\<lparr>offset := offset st2 + b\<rparr>)))"
  using assms by (simp add: loop_body_def Let_def)

lemma loop_body_counters:
  assumes "total_fixed st \<le> total_scanned st"
  shows "total_fixed (snd (loop_body env b st)) \<le> total_scanned (snd (loop_body env b st))"
proof -
  obtain r io2 where f:
    "fetch_places env (offset st) b (emit (Print (Scanning (offset st))) (st_io st)) = (r, io2)"
    by (cases "fetch_places env (offset st) b (emit (Print (Scanning (offset st))) (st_io st))")
  show ?thesis
  proof (cases r)
    case (Inl e)
    with f assms show ?thesis by (simp add: loop_body_cases)
  next
    case (Inr places)
    let ?st1 = "st\<lparr>st_io := io2\<rparr>"
    obtain x st2 where pp: "process_places env places ?st1 = (x, st2)"
      by (cases "process_places env places ?st1")
    have "total_fixed ?st1 \<le> total_scanned ?st1" using assms by simp
    from process_places_counters [OF this, of env places] pp
    have "total_fixed st2 \<le> total_scanned st2" by simp
    with f Inr pp assms show ?thesis
      by (cases x) (simp_all add: loop_body_cases)
  qed
qed

lemma main_loop_counters:
  "total_fixed st \<le> total_scanned st \<Longrightarrow>
     total_fixed (snd (main_loop env b fuel st)) \<le> total_scanned (snd (main_loop env b fuel st))"
proof (induction fuel arbitrary: st)
  case 0
  then show ?case by simp
next
  case (Suc fuel)
  obtain x st1 where lb: "loop_body env b st = (x, st1)" by (cases "loop_body env b st")
  with loop_body_counters [OF Suc.prems, of env b] have inv: "total_fixed st1 \<le> total_scanned st1"
    by simp
  show ?case
  proof (cases x)
    case None
    with lb Suc.IH [OF inv] show ?thesis by simp
  next
    case (Some out)
    with lb inv show ?thesis by simp
  qed
qed

lemma main_counters:
  "total_fixed (snd (main env fuel w)) \<le> total_scanned (snd (main env fuel w))"
proof -
  have i: "total_fixed (initial_state w) \<le> total_scanned (initial_state w)"
    by (simp add: initial_state_def)
  obtain out st where m: "main_loop env batch_size fuel (initial_state w) = (out, st)"
    by (cases "main_loop env batch_size fuel (initial_state w)")
  with main_loop_counters [OF i, of env batch_size fuel] have "total_fixed st \<le> total_scanned st"
    by simp
  with m show ?thesis by (cases out) (simp_all add: main_def)
qed

text \<open>
  C8. \<open>total_fixed \<le> total_scanned\<close> is an invariant of the loops of \<open>main\<close>. It holds in
  the initial state. Processing one row adds exactly one to \<open>total_scanned\<close>, and adds one to
  \<open>total_fixed\<close> exactly when the title of the row changed, the change was printed and its
  write succeeded, so it keeps the invariant, whether or not it raises. Hence so do processing any rows of a
  page (all of them are counted when none raises), one pass of the \<open>while\<close> loop and any
  number of passes, and the invariant holds in the state in which \<open>main\<close> ends, or is when
  the fuel is used up.
\<close>

theorem counters_invariant:
  "total_fixed (initial_state w) \<le> total_scanned (initial_state w)
   \<and> total_scanned (snd (process_place env p st)) = total_scanned st + 1
   \<and> total_fixed (snd (process_place env p st))
       = total_fixed st + (if title_fixed env p (st_io st) then 1 else 0)
   \<and> (total_fixed st \<le> total_scanned st \<longrightarrow>
        total_fixed (snd (process_place env p st)) \<le> total_scanned (snd (process_place env p st))
        \<and> total_fixed (snd (process_places env ps st))
            \<le> total_scanned (snd (process_places env ps st))
        \<and> (fst (process_places env ps st) = None \<longrightarrow>
             total_scanned (snd (process_places env ps st)) = total_scanned st + length ps)
        \<and> total_fixed (snd (loop_body env b st)) \<le> total_scanned (snd (loop_body env b st))
        \<and> total_fixed (snd (main_loop env b fuel st))
            \<le> total_scanned (snd (main_loop env b fuel st)))
   \<and> total_fixed (snd (main env fuel w)) \<le> total_scanned (snd (main env fuel w))"
proof (intro conjI impI)
  show "total_fixed (initial_state w) \<le> total_scanned (initial_state w)"
    by (simp add: initial_state_def)
  show "total_scanned (snd (process_place env p st)) = total_scanned st + 1"
    using process_place_counters [of env p st] by simp
  show "total_fixed (snd (process_place env p st))
       = total_fixed st + (if title_fixed env p (st_io st) then 1 else 0)"
    using process_place_counters [of env p st] by blast
  show "total_fixed (snd (main env fuel w)) \<le> total_scanned (snd (main env fuel w))"
    by (rule main_counters)
next
  assume inv: "total_fixed st \<le> total_scanned st"
  then show "total_fixed (snd (process_place env p st)) \<le> total_scanned (snd (process_place env p st))"
    using process_place_counters [of env p st] by simp
  from inv show "total_fixed (snd (process_places env ps st))
            \<le> total_scanned (snd (process_places env ps st))"
    using process_places_counters [of st env ps] by blast
  from inv show "total_fixed (snd (loop_body env b st)) \<le> total_scanned (snd (loop_body env b st))"
    by (rule loop_body_counters)
  from inv show "total_fixed (snd (main_loop env b fuel st))
            \<le> total_scanned (snd (main_loop env b fuel st))"
    by (rule main_loop_counters)
next
  assume "total_fixed st \<le> total_scanned st" and "fst (process_places env ps st) = None"
  then show "total_scanned (snd (process_places env ps st)) = total_scanned st + length ps"
    using process_places_counters [of st env ps] by blast
qed

section \<open>The scenario of the specification\<close>

lemma sanitize_porec:
  "sanitize_text env (Some (ascii ''Pore?'')) io = (Inr (Some (ascii ''Pore'' @ [269])), io)"
proof -
  have "manual_pass MANUAL_FIXES (ascii ''Pore?'') = ascii ''Pore'' @ [269]"
    by (simp add: MANUAL_FIXES_def ascii_def)
  moreover have "ascii ''Pore?'' \<noteq> []" "\<not> str_in [63] (ascii ''Pore'' @ [269])"
    "\<not> str_in [195] (ascii ''Pore'' @ [269])" by (simp_all add: ascii_def)
  ultimately show ?thesis by (simp add: sanitize_text_def Let_def)
qed

lemma sanitize_split:
  "sanitize_text env (Some (ascii ''Split'')) io = (Inr (Some (ascii ''Split'')), io)"
proof -
  have "manual_pass MANUAL_FIXES (ascii ''Split'') = ascii ''Split''"
    by (simp add: MANUAL_FIXES_def ascii_def)
  moreover have "ascii ''Split'' \<noteq> []" "\<not> str_in [63] (ascii ''Split'')"
    "\<not> str_in [195] (ascii ''Split'')" by (simp_all add: ascii_def)
  ultimately show ?thesis by (simp add: sanitize_text_def Let_def)
qed

lemma porec_changed: "ascii ''Pore?'' \<noteq> ascii ''Pore'' @ [269]" "ascii ''Pore?'' \<noteq> []"
  "ascii ''Pore'' @ [269] \<noteq> []"
  by (simp_all add: ascii_def)

lemma porec_printed:
  "py_print (Fix 1 (Some (ascii ''Pore?'')) (Some (ascii ''Pore'' @ [269]))) io
     = Inr (emit (Print (Fix 1 (Some (ascii ''Pore?'')) (Some (ascii ''Pore'' @ [269])))) io)"
  by (simp add: py_print_def str_of_def encodable_def ascii_def)

lemma process_row_porec:
  "process_place scenario_env row_porec st =
     (None, st\<lparr>total_scanned := total_scanned st + 1, total_fixed := total_fixed st + 1,
               st_io := (st_io st)\<lparr>trace := trace (st_io st) @
                 [Print (Fix 1 (Some (ascii ''Pore?'')) (Some (ascii ''Pore'' @ [269]))),
                  Patch 1 [(ascii ''title'', ascii ''Pore'' @ [269])], Print Saved]\<rparr>\<rparr>)"
  by (simp add: process_place_def row_porec_def sanitize_porec porec_changed porec_printed Let_def
      update_place_def field_items_def scenario_env_def example_env_def emit_def)

lemma process_row_split:
  "process_place env row_split st = (None, st\<lparr>total_scanned := total_scanned st + 1\<rparr>)"
  by (simp add: process_place_def row_split_def sanitize_split Let_def)

lemma scenario_fetch_first:
  "world io = 0 \<Longrightarrow> fetch_places scenario_env offs lim io =
     (Inr [row_porec, row_split], io\<lparr>world := 1, trace := trace io @ [Get offs lim]\<rparr>)"
  by (simp add: fetch_places_def scenario_env_def example_env_def)

lemma scenario_fetch_second:
  "world io = 1 \<Longrightarrow> fetch_places scenario_env offs lim io =
     (Inr [], io\<lparr>world := 2, trace := trace io @ [Get offs lim]\<rparr>)"
  by (simp add: fetch_places_def scenario_env_def example_env_def)

lemma scenario_pass1: "loop_body scenario_env 2 (initial_state 0) = (None, scenario_state1)"
  by (simp add: loop_body_def Let_def initial_state_def emit_def scenario_fetch_first
      process_row_porec process_row_split scenario_state1_def)

lemma scenario_pass2: "loop_body scenario_env 2 scenario_state1 = (Some Finished, scenario_state2)"
  by (simp add: loop_body_def Let_def emit_def scenario_fetch_second
      scenario_state1_def scenario_state2_def)

lemma scenario_run:
  "main_loop scenario_env 2 (Suc (Suc 0)) (initial_state 0) = (Finished, scenario_state2)"
  by (simp add: scenario_pass1 scenario_pass2)

theorem counters_invariant_witness:
  "total_fixed (initial_state (0::nat)) \<le> total_scanned (initial_state (0::nat))
   \<and> snd (main_loop scenario_env 2 (Suc (Suc 0)) (initial_state 0)) = scenario_state2
   \<and> total_fixed scenario_state2 = 1 \<and> total_scanned scenario_state2 = 2
   \<and> total_fixed (snd (main_loop scenario_env 2 (Suc (Suc 0)) (initial_state 0)))
       \<le> total_scanned (snd (main_loop scenario_env 2 (Suc (Suc 0)) (initial_state 0)))"
proof -
  have i: "total_fixed (initial_state (0::nat)) \<le> total_scanned (initial_state (0::nat))"
    by (simp add: initial_state_def)
  have r: "snd (main_loop scenario_env 2 (Suc (Suc 0)) (initial_state 0)) = scenario_state2"
    by (simp only: scenario_run snd_conv)
  have c: "total_fixed scenario_state2 = 1" "total_scanned scenario_state2 = 2"
    by (simp_all add: scenario_state2_def scenario_state1_def)
  from i counters_invariant [where st = "initial_state 0" and env = scenario_env and b = 2
      and fuel = "Suc (Suc 0)"]
  have "total_fixed (snd (main_loop scenario_env 2 (Suc (Suc 0)) (initial_state 0)))
       \<le> total_scanned (snd (main_loop scenario_env 2 (Suc (Suc 0)) (initial_state 0)))"
    by blast
  with i r c show ?thesis by (intro conjI)
qed

section \<open>Pagination\<close>
























section \<open>What is written to the store\<close>

lemma patches_emit [simp]:
  "list_all patch_nonempty (trace (emit e io))
     \<longleftrightarrow> list_all patch_nonempty (trace io) \<and> patch_nonempty e"
  by (simp add: emit_def)



















end
